theory Spec2Isabelle
  imports Complex_Main "HOL-Library.Word"
begin

section \<open>The parameter (Knob) subsystem of Natron: data model\<close>

text \<open>
  The development follows the header \<^verbatim>\<open>Knob.h\<close>. A C++ \<^verbatim>\<open>int\<close> is a 32-bit word, read
  as two's complement with \<^const>\<open>sint\<close>; the cast \<^verbatim>\<open>(U32)index\<close> is \<^const>\<open>unat\<close>. A
  \<^verbatim>\<open>std::vector\<close> is a list, \<^verbatim>\<open>push_back\<close> appends at the end, and
  \<^verbatim>\<open>size()\<close> is \<^const>\<open>length\<close>. A \<^verbatim>\<open>double\<close> is taken as the real number it
  denotes (only comparisons of times are used, no floating-point arithmetic). A failed
  \<^verbatim>\<open>assert\<close> is the error value \<open>AssertionFailed\<close>: assertions are modelled as
  compiled in. An access \<^verbatim>\<open>v[index]\<close> outside of the vector is the error value
  \<open>OutOfRange\<close>; memory is unbounded. A private member \<^verbatim>\<open>_x\<close> of a class is the
  record field \<open>x\<close> (\<open>value'\<close> for \<^verbatim>\<open>Knob::_value\<close>, and \<open>kf_value\<close>, \<open>kf_time\<close>,
  \<open>kf_leftTangent\<close>, \<open>kf_rightTangent\<close> for the members of \<^verbatim>\<open>KeyFrame\<close>).
\<close>

type_synonym int32 = "32 word"
type_synonym U64 = "64 word"

definition INT_MIN :: int32 where
  "INT_MIN = word_of_int (- 2147483648)"

definition INT_MAX :: int32 where
  "INT_MAX = word_of_int 2147483647"

datatype error = AssertionFailed | OutOfRange

text \<open>
  Modelled from the spec: the payload type \<^verbatim>\<open>Variant\<close>, which the header takes from
  \<^verbatim>\<open>Engine/Variant.h\<close>: a tagged union holding a bool, an int, a double or a string.
\<close>

datatype Variant =
    VInvalid
  | VBool bool
  | VInt int32
  | VDouble real
  | VString string

text \<open>The Qt signals of the knob classes; an \<^verbatim>\<open>emit\<close> appends to the log of the object.\<close>

datatype signal =
    MinMaxChanged int32 int32 int32
  | IncrementChanged int32 int32
  | Populated
  | ValueChanged int32 Variant

datatype ValueChangedReason = USER_EDITED | PLUGIN_EDITED | STARTUP_RESTORATION

subsection \<open>The base class \<^verbatim>\<open>Knob\<close>\<close>

text \<open>
  Pointers to holders and to parent knobs are identifiers (\<open>None\<close> is the null pointer).
  \<^verbatim>\<open>_keys\<close> maps a dimension to its ordered map from time to value.
\<close>

record Knob =
  holder :: "nat option"
  value' :: "int32 \<rightharpoonup> Variant"
  hashVector :: "U64 list"
  dimension :: int32
  description :: string
  name :: string
  newLine :: bool
  itemSpacing :: int32
  parentKnob :: "nat option"
  visible :: bool
  enabled :: bool
  canUndo :: bool
  isInsignificant :: bool
  tooltipHint :: string
  keys :: "int32 \<rightharpoonup> (real \<rightharpoonup> Variant)"
  emitted :: "signal list"

text \<open>
  Modelled from the spec: the constructor \<^verbatim>\<open>Knob::Knob(holder, description, dimension)\<close>,
  which the header only declares. It stores its three arguments; the name defaults to the
  description; no value and no key is set; the knob is visible, enabled, undoable and
  significant (\<^verbatim>\<open>isInsignificant\<close> is false on a default knob); the layout hints, the
  tooltip and the hash vector start empty or neutral.
\<close>

definition Knob_ctor :: "nat option \<Rightarrow> string \<Rightarrow> int32 \<Rightarrow> Knob" where
  "Knob_ctor h descr dimn =
     \<lparr> holder = h, value' = Map.empty, hashVector = [], dimension = dimn,
       description = descr, name = descr, newLine = True, itemSpacing = 0,
       parentKnob = None, visible = True, enabled = True, canUndo = True,
       isInsignificant = False, tooltipHint = [], keys = Map.empty, emitted = [] \<rparr>"

definition emit :: "signal \<Rightarrow> 'a Knob_scheme \<Rightarrow> 'a Knob_scheme" where
  "emit s k = k\<lparr> emitted := emitted k @ [s] \<rparr>"

subsection \<open>\<^verbatim>\<open>Int_Knob\<close>\<close>

record Int_Knob = Knob +
  minimums :: "int32 list"
  maximums :: "int32 list"
  increments :: "int32 list"
  displayMins :: "int32 list"
  displayMaxs :: "int32 list"
  disableSlider :: bool

text \<open>
  The constructor of \<^verbatim>\<open>Int_Knob\<close> runs the base constructor and sets
  \<^verbatim>\<open>_disableSlider(false)\<close>; the five vectors are default-constructed, hence empty.
\<close>

definition Int_Knob_ctor :: "nat option \<Rightarrow> string \<Rightarrow> int32 \<Rightarrow> Int_Knob" where
  "Int_Knob_ctor h descr dimn =
     Knob.extend (Knob_ctor h descr dimn) (Int_Knob.fields [] [] [] [] [] False)"

text \<open>
  \<^verbatim>\<open>v[index]\<close> with an \<^verbatim>\<open>int\<close> index: the index is converted to \<^verbatim>\<open>size_t\<close>, so a negative
  one is beyond every vector.
\<close>

definition vector_at :: "'a list \<Rightarrow> int32 \<Rightarrow> error + 'a" where
  "vector_at v index =
     (if 0 \<le> sint index \<and> unat index < length v then Inr (v ! unat index)
      else Inl OutOfRange)"

definition vector_assign :: "'a list \<Rightarrow> int32 \<Rightarrow> 'a \<Rightarrow> error + 'a list" where
  "vector_assign v index x =
     (if 0 \<le> sint index \<and> unat index < length v then Inr (v[unat index := x])
      else Inl OutOfRange)"

text \<open>
  The padding loop of the sparse-index setters,
  \<^verbatim>\<open>while (v.size() <= (U32)index) v.push_back(fill);\<close>
  It stops when the vector has \<open>index + 1\<close> elements.
\<close>

function push_back_while :: "nat \<Rightarrow> 'a \<Rightarrow> 'a list \<Rightarrow> 'a list" where
  "push_back_while idx fill v =
     (if length v \<le> idx then push_back_while idx fill (v @ [fill]) else v)"
  by pat_completeness auto
termination
  by (relation "measure (\<lambda>(idx, fill, v). Suc idx - length v)") auto

declare push_back_while.simps [simp del]

definition setMinimum :: "int32 \<Rightarrow> int32 \<Rightarrow> Int_Knob \<Rightarrow> error + Int_Knob" where
  "setMinimum mini index k =
     (case (if length (minimums k) > unat index
            then vector_assign (minimums k) index mini
            else if index = 0
            then Inr (minimums k @ [mini])
            else Inr (push_back_while (unat index) INT_MIN (minimums k) @ [mini]))
      of Inl e \<Rightarrow> Inl e
       | Inr v \<Rightarrow>
           (case (if length (maximums k) > unat index
                  then vector_at (maximums k) index else Inr 99)
            of Inl e \<Rightarrow> Inl e
             | Inr maximum \<Rightarrow>
                 Inr (emit (MinMaxChanged mini maximum index) (k\<lparr> minimums := v \<rparr>))))"

definition setMaximum :: "int32 \<Rightarrow> int32 \<Rightarrow> Int_Knob \<Rightarrow> error + Int_Knob" where
  "setMaximum maxi index k =
     (case (if length (maximums k) > unat index
            then vector_assign (maximums k) index maxi
            else if index = 0
            then Inr (maximums k @ [maxi])
            else Inr (push_back_while (unat index) INT_MAX (maximums k) @ [maxi]))
      of Inl e \<Rightarrow> Inl e
       | Inr v \<Rightarrow>
           (case (if length (minimums k) > unat index
                  then vector_at (minimums k) index else Inr 99)
            of Inl e \<Rightarrow> Inl e
             | Inr minimum \<Rightarrow>
                 Inr (emit (MinMaxChanged minimum maxi index) (k\<lparr> maximums := v \<rparr>))))"

definition getMinimums :: "Int_Knob \<Rightarrow> int32 list" where
  "getMinimums k = minimums k"

definition getMaximums :: "Int_Knob \<Rightarrow> int32 list" where
  "getMaximums k = maximums k"

definition getIncrements :: "Int_Knob \<Rightarrow> int32 list" where
  "getIncrements k = increments k"

text \<open>
  The padding loop of the single-index \<^verbatim>\<open>setIncrement\<close>, with the assertion of its body:
  \<^verbatim>\<open>while (_increments.size() <= (U32)index) {
      _increments.push_back(1);
      assert(_increments[_increments.size()-1] > 0);
  }\<close>
\<close>

function setIncrement_while :: "nat \<Rightarrow> int32 list \<Rightarrow> error + int32 list" where
  "setIncrement_while idx v =
     (if length v \<le> idx
      then (if 0 < sint ((v @ [1]) ! (length (v @ [1]) - 1))
            then setIncrement_while idx (v @ [1])
            else Inl AssertionFailed)
      else Inr v)"
  by pat_completeness auto
termination
  by (relation "measure (\<lambda>(idx, v). Suc idx - length v)") auto

declare setIncrement_while.simps [simp del]

text \<open>
  \<^verbatim>\<open>setIncrement(int incr, int index)\<close>: the assertion \<^verbatim>\<open>incr > 0\<close> comes first, then the
  same three branches as in \<^verbatim>\<open>setMinimum\<close>, then
  \<^verbatim>\<open>emit incrementChanged(_increments[index], index)\<close>.
\<close>

definition setIncrement :: "int32 \<Rightarrow> int32 \<Rightarrow> Int_Knob \<Rightarrow> error + Int_Knob" where
  "setIncrement incr index k =
     (if \<not> 0 < sint incr then Inl AssertionFailed
      else
        case (if length (increments k) > unat index
              then vector_assign (increments k) index incr
              else if index = 0
              then Inr (increments k @ [incr])
              else map_sum id (\<lambda>v. v @ [incr])
                     (setIncrement_while (unat index) (increments k)))
        of Inl e \<Rightarrow> Inl e
         | Inr v \<Rightarrow>
             (case vector_at v index of
                Inl e \<Rightarrow> Inl e
              | Inr x \<Rightarrow> Inr (emit (IncrementChanged x index) (k\<lparr> increments := v \<rparr>))))"

text \<open>
  \<^verbatim>\<open>setIncrement(const std::vector<int>& incr)\<close> assigns the vector and then runs
  \<^verbatim>\<open>for (U32 i = 0; i < incr.size(); ++i) {
      assert(_increments[i] > 0);
      emit incrementChanged(_increments[i], i);
  }\<close>
  The counter is a 32-bit word and wraps around; on a vector of \<open>2 ^ 32\<close> elements or more
  the loop does not leave by its test, so the loop is a partial function and a run that
  never returns is \<open>None\<close>.
\<close>

partial_function (option) setIncrement_for ::
    "32 word \<Rightarrow> int32 list \<Rightarrow> Int_Knob \<Rightarrow> (error + Int_Knob) option" where
  "setIncrement_for i incr k =
     (if unat i < length incr
      then (if 0 < sint (increments k ! unat i)
            then setIncrement_for (i + 1) incr
                   (emit (IncrementChanged (increments k ! unat i) i) k)
            else Some (Inl AssertionFailed))
      else Some (Inr k))"

definition setIncrement_vector :: "int32 list \<Rightarrow> Int_Knob \<Rightarrow> (error + Int_Knob) option" where
  "setIncrement_vector incr k = setIncrement_for 0 incr (k\<lparr> increments := incr \<rparr>)"

text \<open>A sequence of calls of the two overloads; the first error ends the run.\<close>

datatype setIncrement_call =
    SetIncrement int32 int32
  | SetIncrementVector "int32 list"

fun setIncrement_calls ::
    "setIncrement_call list \<Rightarrow> Int_Knob \<Rightarrow> (error + Int_Knob) option" where
  "setIncrement_calls [] k = Some (Inr k)"
| "setIncrement_calls (SetIncrement incr index # cs) k =
     (case setIncrement incr index k of
        Inl e \<Rightarrow> Some (Inl e)
      | Inr k' \<Rightarrow> setIncrement_calls cs k')"
| "setIncrement_calls (SetIncrementVector incr # cs) k =
     (case setIncrement_vector incr k of
        None \<Rightarrow> None
      | Some (Inl e) \<Rightarrow> Some (Inl e)
      | Some (Inr k') \<Rightarrow> setIncrement_calls cs k')"

text \<open>The vector arguments of a sequence of calls all have fewer than \<open>2 ^ 32\<close> elements.\<close>

fun short_vectors :: "setIncrement_call list \<Rightarrow> bool" where
  "short_vectors [] = True"
| "short_vectors (SetIncrement incr index # cs) = short_vectors cs"
| "short_vectors (SetIncrementVector incr # cs) = (length incr < 2 ^ 32 \<and> short_vectors cs)"

subsection \<open>\<^verbatim>\<open>KeyFrame\<close> and \<^verbatim>\<open>AnimationCurve\<close>\<close>

record KeyFrame =
  kf_value :: Variant
  kf_time :: real
  kf_leftTangent :: "real \<times> Variant"
  kf_rightTangent :: "real \<times> Variant"

datatype Interpolation = CONSTANT | LINEAR | CUBIC | CATMULL_ROM

text \<open>
  \<^verbatim>\<open>_controlPoints\<close> is a \<^verbatim>\<open>std::list\<close> of shared pointers to key frames. The header has no
  operation that changes a key frame, so a pointer is modelled by the key frame it points to.
\<close>

record AnimationCurve =
  interpolation :: Interpolation
  controlPoints :: "KeyFrame list"

text \<open>
  Modelled from the spec: the constructor \<^verbatim>\<open>AnimationCurve::AnimationCurve(type)\<close>, which the
  header only declares: a curve of the given interpolation mode with no key frame yet.
\<close>

definition AnimationCurve_ctor :: "Interpolation \<Rightarrow> AnimationCurve" where
  "AnimationCurve_ctor type = \<lparr> interpolation = type, controlPoints = [] \<rparr>"

text \<open>
  \<^verbatim>\<open>addControlPoint\<close> is \<^verbatim>\<open>_controlPoints.push_back(cp)\<close>, followed by a signal connection
  that leaves the list as it is.
\<close>

definition addControlPoint :: "KeyFrame \<Rightarrow> AnimationCurve \<Rightarrow> AnimationCurve" where
  "addControlPoint cp c = c\<lparr> controlPoints := controlPoints c @ [cp] \<rparr>"

definition setStartAndEnd :: "KeyFrame \<Rightarrow> KeyFrame \<Rightarrow> AnimationCurve \<Rightarrow> AnimationCurve" where
  "setStartAndEnd start end' c = addControlPoint end' (addControlPoint start c)"



subsection \<open>Operations of \<^verbatim>\<open>Knob\<close>\<close>

text \<open>
  \<^verbatim>\<open>setValue(value, dimension)\<close> hands its arguments to \<^verbatim>\<open>setValueInternal\<close>, and
  \<^verbatim>\<open>setValueAtTime(time, value, dimensionIndex)\<close> asserts
  \<^verbatim>\<open>dimensionIndex < _dimension\<close> and hands them to \<^verbatim>\<open>setValueAtTimeInternal\<close>. The two
  internal functions are private members which the header only declares: they are
  parameters here. \<^verbatim>\<open>getValue(dimension)\<close> looks the dimension up in \<^verbatim>\<open>_value\<close> and
  asserts that it was found; the conversion of the variant to the requested type is left
  to the caller.
\<close>

definition setValue :: "(Variant \<Rightarrow> int32 \<Rightarrow> 's \<Rightarrow> 'r) \<Rightarrow> Variant \<Rightarrow> int32 \<Rightarrow> 's \<Rightarrow> 'r" where
  "setValue setValueInternal v d s = setValueInternal v d s"




text \<open>
  \<^verbatim>\<open>setName(name)\<close> is \<^verbatim>\<open>_name = QString(name.c_str())\<close>: the C string ends at the first
  NUL byte. \<^verbatim>\<open>getName()\<close> is \<^verbatim>\<open>_name.toStdString()\<close>. The two conversions between
  \<^verbatim>\<open>QString\<close> and bytes are taken as inverse to each other.
\<close>

definition c_str :: "string \<Rightarrow> string" where
  "c_str s = takeWhile (\<lambda>c. c \<noteq> CHR 0x00) s"

definition setName :: "string \<Rightarrow> 'a Knob_scheme \<Rightarrow> 'a Knob_scheme" where
  "setName n k = k\<lparr> name := c_str n \<rparr>"

definition getName :: "'a Knob_scheme \<Rightarrow> string" where
  "getName k = name k"

definition setIsInsignificant :: "bool \<Rightarrow> 'a Knob_scheme \<Rightarrow> 'a Knob_scheme" where
  "setIsInsignificant b k = k\<lparr> isInsignificant := b \<rparr>"

subsection \<open>\<^verbatim>\<open>Color_Knob\<close>\<close>

text \<open>
  \<^verbatim>\<open>Color_Knob\<close> adds no member to \<^verbatim>\<open>Knob\<close>. Its constructor runs the base constructor
  and then \<^verbatim>\<open>assert(dimension <= 4 && dimension != 2)\<close>.
\<close>

type_synonym Color_Knob = Knob

definition Color_Knob_ctor :: "nat option \<Rightarrow> string \<Rightarrow> int32 \<Rightarrow> error + Color_Knob" where
  "Color_Knob_ctor h descr dimn =
     (let k = Knob_ctor h descr dimn
      in if sint dimn \<le> 4 \<and> dimn \<noteq> 2 then Inr k else Inl AssertionFailed)"

subsection \<open>\<^verbatim>\<open>ComboBox_Knob\<close>\<close>

record ComboBox_Knob = Knob +
  entries :: "string list"
  entriesHelp :: "string list"

definition ComboBox_Knob_ctor :: "nat option \<Rightarrow> string \<Rightarrow> int32 \<Rightarrow> ComboBox_Knob" where
  "ComboBox_Knob_ctor h descr dimn =
     Knob.extend (Knob_ctor h descr dimn) (ComboBox_Knob.fields [] [])"

text \<open>
  \<^verbatim>\<open>populate(entries, entriesHelp)\<close>: the assertion reads the member \<^verbatim>\<open>_entriesHelp\<close>, that
  is, the help list stored before the call, against the argument \<^verbatim>\<open>entries\<close>; then both
  arguments are stored and \<^verbatim>\<open>populated()\<close> is emitted.
\<close>

definition populate ::
    "string list \<Rightarrow> string list \<Rightarrow> ComboBox_Knob \<Rightarrow> error + ComboBox_Knob" where
  "populate entries' entriesHelp' k =
     (if entriesHelp k = [] \<or> length (entriesHelp k) = length entries'
      then Inr (emit Populated (k\<lparr> entriesHelp := entriesHelp', entries := entries' \<rparr>))
      else Inl AssertionFailed)"

definition getEntries :: "ComboBox_Knob \<Rightarrow> string list" where
  "getEntries k = entries k"

definition getEntriesHelp :: "ComboBox_Knob \<Rightarrow> string list" where
  "getEntriesHelp k = entriesHelp k"

subsection \<open>\<^verbatim>\<open>KnobHolder\<close>\<close>

text \<open>
  The virtual functions of a holder (\<^verbatim>\<open>beginKnobsValuesChanged\<close>,
  \<^verbatim>\<open>endKnobsValuesChanged\<close>, \<^verbatim>\<open>onKnobValueChanged\<close> and the pure virtual \<^verbatim>\<open>evaluate\<close>) are
  implemented by the classes deriving from it; a call of one of them is recorded, with its
  arguments, in the field \<open>calls\<close>. A knob is named in a call by its name.
\<close>

datatype holder_call =
    BeginKnobsValuesChanged ValueChangedReason
  | EndKnobsValuesChanged ValueChangedReason
  | OnKnobValueChanged string ValueChangedReason
  | Evaluate string bool

record KnobHolder =
  app :: "nat option"
  knobs :: "string list"
  betweenBeginEndParamChanged :: bool
  calls :: "holder_call list"


definition call :: "holder_call \<Rightarrow> KnobHolder \<Rightarrow> KnobHolder" where
  "call c h = h\<lparr> calls := calls h @ [c] \<rparr>"

text \<open>
  Modelled from the spec: \<^verbatim>\<open>KnobHolder::beginValuesChanged\<close>, \<^verbatim>\<open>endValuesChanged\<close> and
  \<^verbatim>\<open>onValueChanged\<close>, which the header only declares. The first two are the explicit
  bracket. \<^verbatim>\<open>onValueChanged(knob, reason)\<close> is the single entry point every knob calls
  after a change: if the holder is not inside a bracket already it makes its own begin and
  end around the notification; then the holder invokes \<^verbatim>\<open>evaluate(knob, isSignificant)\<close>,
  where \<open>isSignificant\<close> is false when the changed knob has \<^verbatim>\<open>isInsignificant == true\<close>.
\<close>

definition beginValuesChanged :: "ValueChangedReason \<Rightarrow> KnobHolder \<Rightarrow> KnobHolder" where
  "beginValuesChanged reason h =
     call (BeginKnobsValuesChanged reason) (h\<lparr> betweenBeginEndParamChanged := True \<rparr>)"

definition endValuesChanged :: "ValueChangedReason \<Rightarrow> KnobHolder \<Rightarrow> KnobHolder" where
  "endValuesChanged reason h =
     call (EndKnobsValuesChanged reason) (h\<lparr> betweenBeginEndParamChanged := False \<rparr>)"

definition onValueChanged ::
    "'a Knob_scheme \<Rightarrow> ValueChangedReason \<Rightarrow> KnobHolder \<Rightarrow> KnobHolder" where
  "onValueChanged k reason h =
     (let wasBeginCalled = betweenBeginEndParamChanged h;
          h1 = (if wasBeginCalled then h else beginValuesChanged reason h);
          h2 = call (OnKnobValueChanged (getName k) reason) h1;
          h3 = (if wasBeginCalled then h2 else endValuesChanged reason h2)
      in call (Evaluate (getName k) (\<not> isInsignificant k)) h3)"

text \<open>
  Modelled from the spec: \<^verbatim>\<open>Knob::setValueInternal(v, dimension)\<close>, which the header only
  declares: it stores the value in the static value mapping at the dimension, recomputes
  the hash vector (\<^verbatim>\<open>fillHashVector\<close> is pure virtual: a parameter), emits
  \<^verbatim>\<open>valueChanged(dimension, v)\<close> and then invokes \<^verbatim>\<open>KnobHolder::onValueChanged(this, reason)\<close>.
  The state is the knob together with its holder.
\<close>

definition setValueInternal ::
    "('a Knob_scheme \<Rightarrow> U64 list) \<Rightarrow> Variant \<Rightarrow> int32 \<Rightarrow> 'a Knob_scheme \<times> KnobHolder
      \<Rightarrow> 'a Knob_scheme \<times> KnobHolder" where
  "setValueInternal fillHashVector v d s =
     (let k1 = (fst s)\<lparr> value' := (value' (fst s))(d \<mapsto> v) \<rparr>;
          k2 = k1\<lparr> hashVector := fillHashVector k1 \<rparr>;
          k3 = emit (ValueChanged d v) k2
      in (k3, onValueChanged k3 PLUGIN_EDITED (snd s)))"



text \<open>The \<^verbatim>\<open>evaluate\<close> calls a holder has received, in order.\<close>

fun evaluations :: "holder_call list \<Rightarrow> (string \<times> bool) list" where
  "evaluations [] = []"
| "evaluations (Evaluate n b # cs) = (n, b) # evaluations cs"
| "evaluations (c # cs) = evaluations cs"

section \<open>Sparse-index setters\<close>

lemma push_back_while_eq:
  "push_back_while idx fill v = v @ replicate (Suc idx - length v) fill"
proof (induction idx fill v rule: push_back_while.induct)
  case (1 idx fill v)
  show ?case
  proof (cases "length v \<le> idx")
    case True
    then have "push_back_while idx fill v = push_back_while idx fill (v @ [fill])"
      by (subst push_back_while.simps) simp
    also have "\<dots> = (v @ [fill]) @ replicate (Suc idx - length (v @ [fill])) fill"
      using True by (rule "1.IH")
    also have "\<dots> = v @ replicate (Suc idx - length v) fill"
      using True by (simp add: Suc_diff_le replicate_app_Cons_same)
    finally show ?thesis .
  next
    case False
    then show ?thesis
      by (subst push_back_while.simps) simp
  qed
qed

lemma minimums_emit [simp]: "minimums (emit s k) = minimums k"
  by (simp add: emit_def)

lemma minimums_Int_Knob_ctor [simp]: "minimums (Int_Knob_ctor h descr dimn) = []"
  by (simp add: Int_Knob_ctor_def Knob.defs Int_Knob.defs)

lemma maximums_Int_Knob_ctor [simp]: "maximums (Int_Knob_ctor h descr dimn) = []"
  by (simp add: Int_Knob_ctor_def Knob.defs Int_Knob.defs)

lemma vector_at_0: "vector_at v 0 = (if v = [] then Inl OutOfRange else Inr (v ! 0))"
  by (simp add: vector_at_def)

lemma vector_at_in_range:
  "0 \<le> sint index \<Longrightarrow> unat index < length v \<Longrightarrow> vector_at v index = Inr (v ! unat index)"
  by (simp add: vector_at_def)

lemma minimums_setMinimum_first:
  "minimums k = [] \<Longrightarrow> map_sum id minimums (setMinimum a 0 k) = Inr [a]"
  by (simp add: setMinimum_def vector_at_0)

lemma minimums_setMinimum_sparse:
  "length (minimums k) \<le> unat index \<Longrightarrow> index \<noteq> 0 \<Longrightarrow> 0 \<le> sint index \<Longrightarrow>
   map_sum id minimums (setMinimum mini index k) =
     Inr (minimums k @ replicate (Suc (unat index) - length (minimums k)) INT_MIN @ [mini])"
  by (simp add: setMinimum_def push_back_while_eq vector_at_in_range)

text \<open>
  C1. On an \<^verbatim>\<open>Int_Knob\<close> whose minimum was set for index 0 only, \<^verbatim>\<open>setMinimum(m, 2)\<close>
  is claimed to leave \<^verbatim>\<open>getMinimums()\<close> with exactly 3 elements, the one at index 2 being
  \<open>m\<close>. The padding loop runs while \<^verbatim>\<open>size() <= index\<close>, so it fills index 2 as well, and
  the value is appended after it: the vector has 4 elements, \<open>INT_MIN\<close> at index 2 and \<open>m\<close>
  at index 3, while the signal announces \<open>m\<close> as the minimum of index 2.
\<close>

theorem setMinimum_sparse_index_overshoots:
  "(case setMinimum a 0 (Int_Knob_ctor h descr dimn) of
      Inl e \<Rightarrow> Inl e
    | Inr k \<Rightarrow> map_sum id getMinimums (setMinimum m 2 k))
   = Inr [a, INT_MIN, INT_MIN, m]"
proof -
  have "map_sum id minimums (setMinimum a 0 (Int_Knob_ctor h descr dimn)) = Inr [a]"
    by (rule minimums_setMinimum_first) simp
  then obtain k where first: "setMinimum a 0 (Int_Knob_ctor h descr dimn) = Inr k"
    and k: "minimums k = [a]"
    by (cases "setMinimum a 0 (Int_Knob_ctor h descr dimn)") auto
  have "unat (2 :: int32) = 2"
    by simp
  then have "Suc (unat (2 :: int32)) - length [a] = Suc (Suc 0)"
    by simp
  then have pad: "replicate (Suc (unat (2 :: int32)) - length [a]) INT_MIN = [INT_MIN, INT_MIN]"
    by (simp only: replicate.simps)
  have "map_sum id minimums (setMinimum m 2 k)
          = Inr (minimums k @ replicate (Suc (unat (2 :: int32)) - length (minimums k)) INT_MIN @ [m])"
    by (rule minimums_setMinimum_sparse) (simp_all add: k)
  then have "map_sum id minimums (setMinimum m 2 k) = Inr [a, INT_MIN, INT_MIN, m]"
    unfolding k pad by simp
  moreover have "getMinimums = minimums"
    by (rule ext) (simp add: getMinimums_def)
  ultimately show ?thesis
    by (simp add: first)
qed

section \<open>Animation curves\<close>

lemma controlPoints_addControlPoint:
  "controlPoints (addControlPoint cp c) = controlPoints c @ [cp]"
  by (simp add: addControlPoint_def)

lemma controlPoints_fold_addControlPoint:
  "controlPoints (fold addControlPoint kfs c) = controlPoints c @ kfs"
  by (induction kfs arbitrary: c) (simp_all add: controlPoints_addControlPoint)

text \<open>
  C3. The claim is that after every sequence of \<^verbatim>\<open>addControlPoint\<close> calls the control points
  are sorted by strictly increasing time. \<^verbatim>\<open>addControlPoint\<close> pushes the key frame at the
  back of the list and nothing else, so what holds is: the list is the previous list followed
  by the inserted key frames in call order, and it is sorted by strictly increasing time
  exactly when that sequence is.
\<close>

theorem addControlPoint_keeps_insertion_order:
  "controlPoints (fold addControlPoint kfs c) = controlPoints c @ kfs \<and>
   (sorted_wrt (<) (map kf_time (controlPoints (fold addControlPoint kfs c)))
      \<longleftrightarrow> sorted_wrt (<) (map kf_time (controlPoints c @ kfs)))"
  by (simp only: controlPoints_fold_addControlPoint)

text \<open>
  Inserting a key frame at time 2 and then one at time 1 leaves the list unsorted; inserting
  two key frames at time 1 leaves two key frames that share a time.
\<close>

theorem addControlPoint_unsorted_counterexample:
  "\<not> sorted_wrt (<) (map kf_time (controlPoints
        (addControlPoint \<lparr> kf_value = VDouble 20, kf_time = 1,
                           kf_leftTangent = (0, VDouble 0), kf_rightTangent = (0, VDouble 0) \<rparr>
        (addControlPoint \<lparr> kf_value = VDouble 10, kf_time = 2,
                           kf_leftTangent = (0, VDouble 0), kf_rightTangent = (0, VDouble 0) \<rparr>
        (AnimationCurve_ctor LINEAR))))) \<and>
   \<not> distinct (map kf_time (controlPoints
        (addControlPoint \<lparr> kf_value = VDouble 20, kf_time = 1,
                           kf_leftTangent = (0, VDouble 0), kf_rightTangent = (0, VDouble 0) \<rparr>
        (addControlPoint \<lparr> kf_value = VDouble 10, kf_time = 1,
                           kf_leftTangent = (0, VDouble 0), kf_rightTangent = (0, VDouble 0) \<rparr>
        (AnimationCurve_ctor LINEAR)))))"
  by (simp add: addControlPoint_def AnimationCurve_ctor_def)




section \<open>Index checks of the per-dimension operations\<close>






section \<open>Significance of a value change\<close>

lemma evaluations_append: "evaluations (xs @ ys) = evaluations xs @ evaluations ys"
  by (induction xs rule: evaluations.induct) simp_all

lemma evaluations_onValueChanged:
  "evaluations (calls (onValueChanged k reason h))
     = evaluations (calls h) @ [(getName k, \<not> isInsignificant k)]"
  by (simp add: onValueChanged_def Let_def call_def beginValuesChanged_def
      endValuesChanged_def evaluations_append)

lemma snd_setValueInternal:
  "snd (setValueInternal fill v d (k, h))
     = onValueChanged (emit (ValueChanged d v)
         ((k\<lparr> value' := (value' k)(d \<mapsto> v) \<rparr>)
            \<lparr> hashVector := fill (k\<lparr> value' := (value' k)(d \<mapsto> v) \<rparr>) \<rparr>)) PLUGIN_EDITED h"
  by (simp add: setValueInternal_def Let_def)

text \<open>
  C6. A value change that reaches the holder (through \<^verbatim>\<open>onValueChanged\<close>, as \<^verbatim>\<open>setValue\<close>
  does) makes exactly one more call of \<^verbatim>\<open>evaluate\<close>, whose flag \<open>isSignificant\<close> is the
  negation of the knob's \<^verbatim>\<open>isInsignificant\<close>: false for a knob on which
  \<^verbatim>\<open>setIsInsignificant(true)\<close> was called, true for a knob with the flags of the
  constructor. The call is made in both cases.
\<close>

theorem evaluate_receives_significance:
  "evaluations (calls (onValueChanged k reason h))
     = evaluations (calls h) @ [(getName k, \<not> isInsignificant k)] \<and>
   evaluations (calls (snd (setValue (setValueInternal fill) v d (k, h))))
     = evaluations (calls h) @ [(getName k, \<not> isInsignificant k)] \<and>
   evaluations (calls (snd (setValue (setValueInternal fill) v d (setIsInsignificant True k, h))))
     = evaluations (calls h) @ [(getName k, False)] \<and>
   evaluations (calls (snd (setValue (setValueInternal fill) v d (Knob_ctor ho descr dimn, h))))
     = evaluations (calls h) @ [(descr, True)]"
  by (simp add: setValue_def snd_setValueInternal evaluations_onValueChanged
      getName_def emit_def setIsInsignificant_def Knob_ctor_def)

section \<open>Dimensions of a color knob\<close>

text \<open>
  C7. The claim is that the constructor of \<^verbatim>\<open>Color_Knob\<close> fails its assertion for every
  dimension outside \<open>{1, 3, 4}\<close>, 0 and the negative ones included. The assertion is
  \<^verbatim>\<open>dimension <= 4 && dimension != 2\<close>: it fails exactly for dimension 2 and for the
  dimensions above 4.
\<close>

theorem Color_Knob_ctor_assertion:
  "isl (Color_Knob_ctor h descr dimn) \<longleftrightarrow> (4 < sint dimn \<or> dimn = 2)"
  by (auto simp: Color_Knob_ctor_def Let_def)

text \<open>Dimension 0 and dimension \<open>-1\<close> pass the assertion.\<close>

theorem Color_Knob_ctor_counterexample:
  "Color_Knob_ctor None ''gain'' 0 = Inr (Knob_ctor None ''gain'' 0) \<and>
   Color_Knob_ctor None ''gain'' (- 1) = Inr (Knob_ctor None ''gain'' (- 1))"
  by (simp add: Color_Knob_ctor_def Let_def)

section \<open>Entries and help texts of a combo box\<close>

lemma entries_ComboBox_Knob_ctor:
  "entries (ComboBox_Knob_ctor h descr dimn) = [] \<and> entriesHelp (ComboBox_Knob_ctor h descr dimn) = []"
  by (simp add: ComboBox_Knob_ctor_def Knob.defs ComboBox_Knob.defs)

text \<open>
  C8. The claim is that after \<^verbatim>\<open>populate(entries, entriesHelp)\<close> the stored help list is
  empty or as long as the stored entries, a call with a non-empty help list of another
  length being rejected by the assertion. The assertion reads the help list stored before
  the call, not the argument: on a new knob, whose stored help list is empty, two entries
  with one help text pass the assertion and are stored.
\<close>

theorem populate_checks_the_stored_help:
  "map_sum id (\<lambda>k. (getEntries k, getEntriesHelp k))
     (populate [''over'', ''under''] [''only one help''] (ComboBox_Knob_ctor h descr dimn))
   = Inr ([''over'', ''under''], [''only one help''])"
  by (simp add: populate_def entries_ComboBox_Knob_ctor getEntries_def getEntriesHelp_def emit_def)

section \<open>The name of a knob\<close>

text \<open>
  C9. The claim is that the name defaults to the description and can be set once, later
  calls of \<^verbatim>\<open>setName\<close> leaving \<^verbatim>\<open>getName\<close> as it is. \<^verbatim>\<open>setName\<close> assigns the name at every
  call: the name defaults to the description, and after any \<^verbatim>\<open>setName(n)\<close>, \<^verbatim>\<open>getName()\<close>
  is \<open>n\<close> (up to its first NUL byte), whatever was set before.
\<close>

theorem setName_last_call_wins:
  "getName (setName n2 (setName n1 k)) = c_str n2 \<and>
   getName (Knob_ctor h descr dimn) = descr"
  by (simp add: getName_def setName_def Knob_ctor_def)

text \<open>A second \<^verbatim>\<open>setName\<close> changes the result of \<^verbatim>\<open>getName\<close>.\<close>

theorem setName_once_counterexample:
  "getName (setName ''second'' (setName ''first'' (Knob_ctor None ''label'' 1)))
     \<noteq> getName (setName ''first'' (Knob_ctor None ''label'' 1))"
  by (simp add: getName_def setName_def c_str_def)

section \<open>Increments of an integer knob\<close>

lemma setIncrement_while_eq:
  "setIncrement_while idx v = Inr (v @ replicate (Suc idx - length v) 1)"
proof (induction idx v rule: setIncrement_while.induct)
  case (1 idx v)
  show ?case
  proof (cases "length v \<le> idx")
    case True
    have pos: "0 < sint ((v @ [1 :: int32]) ! (length (v @ [1]) - 1))"
      by simp
    from True have "setIncrement_while idx v = setIncrement_while idx (v @ [1])"
      by (subst setIncrement_while.simps) simp
    also have "\<dots> = Inr ((v @ [1]) @ replicate (Suc idx - length (v @ [1])) 1)"
      using True pos by (rule "1.IH")
    also have "\<dots> = Inr (v @ replicate (Suc idx - length v) 1)"
      using True by (simp add: Suc_diff_le replicate_app_Cons_same)
    finally show ?thesis .
  next
    case False
    then show ?thesis
      by (subst setIncrement_while.simps) simp
  qed
qed

lemma increments_emit [simp]: "increments (emit s k) = increments k"
  by (simp add: emit_def)

lemma setIncrement_Inr:
  assumes "setIncrement incr index k = Inr k'"
  shows "0 < sint incr \<and>
         (increments k' = (increments k)[unat index := incr] \<or>
          increments k' = increments k @ [incr] \<or>
          increments k'
            = increments k @ replicate (Suc (unat index) - length (increments k)) 1 @ [incr])"
  using assms
  by (auto simp: setIncrement_def vector_assign_def vector_at_def setIncrement_while_eq
      split: if_splits sum.splits)

lemma setIncrement_positive:
  assumes "setIncrement incr index k = Inr k'"
    and "\<forall>x \<in> set (increments k). 0 < sint x"
  shows "\<forall>x \<in> set (increments k'). 0 < sint x"
proof -
  from assms(1) have pos: "0 < sint incr"
    by (simp add: setIncrement_Inr)
  from setIncrement_Inr [OF assms(1)]
  consider (inrange) "increments k' = (increments k)[unat index := incr]"
    | (first) "increments k' = increments k @ [incr]"
    | (sparse) "increments k'
        = increments k @ replicate (Suc (unat index) - length (increments k)) 1 @ [incr]"
    by blast
  then show ?thesis
  proof cases
    case inrange
    with assms(2) pos show ?thesis
      by (auto dest!: set_update_subset_insert [THEN subsetD])
  next
    case first
    with assms(2) pos show ?thesis
      by auto
  next
    case sparse
    with assms(2) pos show ?thesis
      by auto
  qed
qed

lemma unat_plus_one_le: "unat (i + 1 :: 32 word) \<le> Suc (unat i)"
  by (simp add: unat_word_ariths)

lemma setIncrement_for_checked:
  assumes "setIncrement_for i incr k = Some r"
  shows "\<forall>k'. r = Inr k' \<longrightarrow> increments k' = increments k \<and>
           (\<forall>j. unat i \<le> j \<and> j < length incr \<longrightarrow> 0 < sint (increments k ! j))"
proof (rule setIncrement_for.raw_induct
    [where P = "\<lambda>i incr k r. \<forall>k'. r = Inr k' \<longrightarrow> increments k' = increments k \<and>
           (\<forall>j. unat i \<le> j \<and> j < length incr \<longrightarrow> 0 < sint (increments k ! j))"],
    goal_cases)
  case (1 loop i incr k r)
  note IH = "1"(1) and body = "1"(2)
  show ?case
  proof (cases "unat i < length incr")
    case False
    with body show ?thesis
      by auto
  next
    case inside: True
    show ?thesis
    proof (cases "0 < sint (increments k ! unat i)")
      case False
      with inside body show ?thesis
        by auto
    next
      case True
      with inside body
      have call: "loop (i + 1) incr (emit (IncrementChanged (increments k ! unat i) i) k) = Some r"
        by simp
      show ?thesis
      proof (intro allI impI)
        fix k'
        assume r: "r = Inr k'"
        from IH [OF call] r
        have same: "increments k' = increments k"
          and rest: "\<And>j. unat (i + 1) \<le> j \<Longrightarrow> j < length incr
                        \<Longrightarrow> 0 < sint (increments k ! j)"
          by simp_all
        have "0 < sint (increments k ! j)" if "unat i \<le> j" "j < length incr" for j
        proof (cases "j = unat i")
          case True
          with \<open>0 < sint (increments k ! unat i)\<close> show ?thesis
            by simp
        next
          case False
          with that(1) unat_plus_one_le [of i] have "unat (i + 1) \<le> j"
            by simp
          then show ?thesis
            using that(2) by (rule rest)
        qed
        with same show "increments k' = increments k \<and>
           (\<forall>j. unat i \<le> j \<and> j < length incr \<longrightarrow> 0 < sint (increments k ! j))"
          by simp
      qed
    qed
  qed
next
  case 2
  show ?case
    by (rule assms)
qed

lemma setIncrement_vector_positive:
  assumes "setIncrement_vector incr k = Some (Inr k')"
  shows "increments k' = incr \<and> (\<forall>x \<in> set (increments k'). 0 < sint x)"
proof -
  from assms have "setIncrement_for 0 incr (k\<lparr> increments := incr \<rparr>) = Some (Inr k')"
    by (simp add: setIncrement_vector_def)
  from setIncrement_for_checked [OF this]
  have same: "increments k' = incr"
    and pos: "\<And>j. j < length incr \<Longrightarrow> 0 < sint (incr ! j)"
    by simp_all
  from pos have "\<forall>x \<in> set incr. 0 < sint x"
    by (auto simp: in_set_conv_nth)
  with same show ?thesis
    by simp
qed

lemma setIncrement_calls_positive:
  "setIncrement_calls cs k = Some (Inr k') \<Longrightarrow> \<forall>x \<in> set (increments k). 0 < sint x
     \<Longrightarrow> \<forall>x \<in> set (increments k'). 0 < sint x"
proof (induction cs k rule: setIncrement_calls.induct)
  case (1 k)
  then show ?case by simp
next
  case (2 incr index cs k)
  from "2.prems"(1) obtain k1 where step: "setIncrement incr index k = Inr k1"
    and run: "setIncrement_calls cs k1 = Some (Inr k')"
    by (auto split: sum.splits)
  from step "2.prems"(2) have "\<forall>x \<in> set (increments k1). 0 < sint x"
    by (rule setIncrement_positive)
  with "2.IH" [OF step run] show ?case .
next
  case (3 incr cs k)
  from "3.prems"(1) obtain k1 where step: "setIncrement_vector incr k = Some (Inr k1)"
    and run: "setIncrement_calls cs k1 = Some (Inr k')"
    by (auto split: option.splits sum.splits)
  from setIncrement_vector_positive [OF step] have "\<forall>x \<in> set (increments k1). 0 < sint x"
    by simp
  with "3.IH" [OF step _ run] show ?case by simp
qed

lemma increments_Int_Knob_ctor [simp]: "increments (Int_Knob_ctor h descr dimn) = []"
  by (simp add: Int_Knob_ctor_def Knob.defs Int_Knob.defs)

lemma unat_Suc_no_wrap:
  "unat (i :: 32 word) < n \<Longrightarrow> n < 2 ^ 32 \<Longrightarrow> unat (i + 1) = Suc (unat i)"
  by (simp add: unat_word_ariths)

lemma setIncrement_for_stop:
  "\<not> unat i < length incr \<Longrightarrow> setIncrement_for i incr k = Some (Inr k)"
  by (subst setIncrement_for.simps) simp

lemma setIncrement_for_step:
  "unat i < length incr \<Longrightarrow> 0 < sint (increments k ! unat i) \<Longrightarrow>
   setIncrement_for i incr k
     = setIncrement_for (i + 1) incr (emit (IncrementChanged (increments k ! unat i) i) k)"
  by (subst setIncrement_for.simps) simp

lemma setIncrement_for_assert:
  "unat i < length incr \<Longrightarrow> \<not> 0 < sint (increments k ! unat i) \<Longrightarrow>
   setIncrement_for i incr k = Some (Inl AssertionFailed)"
  by (subst setIncrement_for.simps) simp

lemma setIncrement_for_returns:
  "length incr < 2 ^ 32 \<Longrightarrow> \<exists>r. setIncrement_for i incr k = Some r"
proof (induction "length incr - unat i" arbitrary: i k)
  case 0
  then have "\<not> unat i < length incr"
    by simp
  then show ?case
    by (simp add: setIncrement_for_stop)
next
  case (Suc n)
  then have inside: "unat i < length incr"
    by simp
  from inside Suc.prems have "unat (i + 1) = Suc (unat i)"
    by (rule unat_Suc_no_wrap)
  with Suc.hyps(2) have "n = length incr - unat (i + 1)"
    by simp
  from Suc.hyps(1) [OF this Suc.prems]
  obtain r where "setIncrement_for (i + 1) incr
      (emit (IncrementChanged (increments k ! unat i) i) k) = Some r"
    by blast
  with inside show ?case
    by (cases "0 < sint (increments k ! unat i)")
      (simp_all add: setIncrement_for_step setIncrement_for_assert)
qed

lemma setIncrement_vector_returns:
  "length incr < 2 ^ 32 \<Longrightarrow> \<exists>r. setIncrement_vector incr k = Some r"
  by (simp add: setIncrement_vector_def setIncrement_for_returns)

text \<open>A run returns when every vector argument has fewer than \<open>2 ^ 32\<close> elements.\<close>

lemma setIncrement_calls_returns:
  "short_vectors cs \<Longrightarrow> \<exists>r. setIncrement_calls cs k = Some r"
proof (induction cs arbitrary: k)
  case Nil
  show ?case by simp
next
  case (Cons c cs)
  show ?case
  proof (cases c)
    case (SetIncrement incr index)
    with Cons show ?thesis
      by (cases "setIncrement incr index k") simp_all
  next
    case (SetIncrementVector incr)
    with Cons.prems have "length incr < 2 ^ 32" and rest: "short_vectors cs"
      by simp_all
    then obtain r where r: "setIncrement_vector incr k = Some r"
      using setIncrement_vector_returns by blast
    show ?thesis
    proof (cases r)
      case (Inl e)
      with r SetIncrementVector show ?thesis by simp
    next
      case (Inr k1)
      with r SetIncrementVector Cons.IH [OF rest, of k1] show ?thesis by simp
    qed
  qed
qed

text \<open>
  C10. On an \<^verbatim>\<open>Int_Knob\<close>, after any sequence of calls of the two overloads of
  \<^verbatim>\<open>setIncrement\<close> that runs to its end (no assertion fails, no access leaves a vector,
  every loop returns), every element of \<^verbatim>\<open>getIncrements()\<close> is strictly positive.
\<close>

theorem increments_stay_positive:
  assumes "setIncrement_calls cs (Int_Knob_ctor h descr dimn) = Some (Inr k')"
  shows "list_all (\<lambda>x. 0 < sint x) (getIncrements k')"
proof -
  have "\<forall>x \<in> set (increments (Int_Knob_ctor h descr dimn)). 0 < sint x"
    by simp
  with assms have "\<forall>x \<in> set (increments k'). 0 < sint x"
    by (rule setIncrement_calls_positive)
  then show ?thesis
    by (simp add: getIncrements_def list_all_iff)
qed

theorem increments_stay_positive_witness:
  "\<exists>k'. setIncrement_calls [SetIncrement 2 0, SetIncrementVector [3, 4], SetIncrement 5 2]
          (Int_Knob_ctor None ''size'' 1) = Some (Inr k') \<and>
        getIncrements k' = [3, 4, 1, 5] \<and>
        list_all (\<lambda>x. 0 < sint x) (getIncrements k')"
proof -
  have "map_option (map_sum id getIncrements)
     (setIncrement_calls [SetIncrement 2 0, SetIncrementVector [3, 4], SetIncrement 5 2]
        (Int_Knob_ctor None ''size'' 1)) = Some (Inr [3, 4, 1, 5])"
    by (simp add: setIncrement_def setIncrement_vector_def setIncrement_for_step
        setIncrement_for_stop setIncrement_while_eq getIncrements_def
        vector_at_def vector_assign_def)
  then obtain s where some: "setIncrement_calls
      [SetIncrement 2 0, SetIncrementVector [3, 4], SetIncrement 5 2]
      (Int_Knob_ctor None ''size'' 1) = Some s"
    and s: "map_sum id getIncrements s = Inr [3, 4, 1, 5]"
    by auto
  from s obtain k' where "s = Inr k'" and res: "getIncrements k' = [3, 4, 1, 5]"
    by (cases s) auto
  with some have run: "setIncrement_calls
      [SetIncrement 2 0, SetIncrementVector [3, 4], SetIncrement 5 2]
      (Int_Knob_ctor None ''size'' 1) = Some (Inr k')"
    by simp
  from increments_stay_positive [OF run] run res show ?thesis
    by blast
qed

end
